theory Spec2Isabelle
  imports Complex_Main
begin

section \<open>Nginx request exporter: data model\<close>

text \<open>
  A shallow embedding of \<^verbatim>\<open>nginx_request_exporter.go\<close>. Conventions:
  \<^item> Go's \<^verbatim>\<open>float64\<close> is idealised as \<open>real\<close>; \<^verbatim>\<open>strconv.ParseFloat\<close> is a parameter
    \<open>pf\<close> of every function that calls it (\<open>None\<close> is its error return).
  \<^item> The syslog channel is a finite list of messages; the consumer goroutine is a fold
    over that list.
  \<^item> The default Prometheus registry is a map from fully-qualified metric names to the
    histogram vectors the pipeline registered. Collectors registered elsewhere (the two
    system counters, the Go runtime collectors) and the library's descriptor checks
    (name syntax) are the parameter \<open>valid\<close>: \<open>valid fq ls\<close> holds when the registry
    accepts a descriptor named \<open>fq\<close> with label names \<open>ls\<close> as far as those are
    concerned.
  \<^item> A pointer to a registered collector is its key in the registry map.
  \<^item> The library refuses to build a child histogram (it panics) when the bounds are not
    strictly increasing or a label is named \<^verbatim>\<open>le\<close>; observation is modelled for the
    vectors it accepts (\<open>histogramAccepted\<close> below).
  \<^item> Log output is not modelled.
\<close>

text \<open>A syslog message is a \<^verbatim>\<open>map[string]interface{}\<close>: the values are dynamically typed.\<close>

datatype part_value = StringV string | IntV int

type_synonym log_parts = "string \<Rightarrow> part_value option"

text \<open>\<^verbatim>\<open>v, _ := part[k].(string)\<close>: the zero value when the key is absent or not a string.\<close>

fun asString :: "part_value option \<Rightarrow> string" where
  "asString (Some (StringV s)) = s"
| "asString (Some (IntV i)) = []"
| "asString None = []"

text \<open>
  The types \<^verbatim>\<open>metric\<close> and \<^verbatim>\<open>labelset\<close> are declared beside \<^verbatim>\<open>parseMessage\<close>, outside
  the file embedded here. A label set is a list of (name, value) pairs, which keeps the
  two sequences aligned; \<open>Names\<close> and \<open>Values\<close> are its two fields.
\<close>

record metric =
  Name :: string
  Value :: real

type_synonym labelset = "(string \<times> string) list"

definition Names :: "labelset \<Rightarrow> string list" where
  "Names ls = map fst ls"

definition Values :: "labelset \<Rightarrow> string list" where
  "Values ls = map snd ls"

text \<open>One histogram (a child of a vector): observation count, sum, and per-bucket counts.\<close>

record histogram =
  h_count :: nat
  h_sum :: real
  h_bucket_counts :: "nat list"

text \<open>
  A \<^verbatim>\<open>HistogramVec\<close>: its descriptor (name, help, label names), its bucket boundaries and
  one child histogram per tuple of label values.
\<close>

record histogram_vec =
  fqName :: string
  helpText :: string
  labelNames :: "string list"
  buckets :: "real list"
  children :: "string list \<Rightarrow> histogram option"

type_synonym registry = "string \<Rightarrow> histogram_vec option"

text \<open>The pipeline's state: the two system counters and the registry.\<close>

record state =
  syslogMessages :: nat
  syslogParseFailures :: nat
  collectors :: registry

section \<open>Configuration\<close>

text \<open>\<^verbatim>\<open>os.Getenv\<close>: the value of the variable, or the empty string when it is unset.\<close>

definition os_Getenv :: "(string \<Rightarrow> string option) \<Rightarrow> string \<Rightarrow> string" where
  "os_Getenv env key = (case env key of None \<Rightarrow> [] | Some v \<Rightarrow> v)"

definition GetEnv :: "(string \<Rightarrow> string option) \<Rightarrow> string \<Rightarrow> string \<Rightarrow> string" where
  "GetEnv env key fallback =
     (let v = os_Getenv env key in if length v = 0 then fallback else v)"

text \<open>
  \<^verbatim>\<open>readParameters\<close>: the fallbacks are the flags' default values (the flags are
  dereferenced before \<^verbatim>\<open>flag.Parse\<close> runs). The result map is a record here.
\<close>

record parameters =
  listenAddress :: string
  metricsPath :: string
  syslogAddress :: string
  metricBuckets :: string

definition readParameters :: "(string \<Rightarrow> string option) \<Rightarrow> parameters" where
  "readParameters env =
     \<lparr> listenAddress = GetEnv env ''NRE_WEB_LISTEN_ADDRESS'' '':9147'',
       metricsPath = GetEnv env ''NRE_WEB_TELEMETRY_PATH'' ''/metrics'',
       syslogAddress = GetEnv env ''NRE_NGINX_SYSLOG_LISTENER'' ''0.0.0.0:9514'',
       metricBuckets = GetEnv env ''NRE_HISTOGRAM_BUCKETS''
         ''.005,.01,.025,.05,.1,.25,.5,1,2.5,5,10'' \<rparr>"

section \<open>Bucket boundaries\<close>

text \<open>\<^verbatim>\<open>strings.Split(s, sep)\<close> for a one-byte separator: always at least one piece.\<close>

fun split_on :: "char \<Rightarrow> string \<Rightarrow> string list" where
  "split_on sep [] = [[]]"
| "split_on sep (c # cs) =
     (if c = sep then [] # split_on sep cs
      else (case split_on sep cs of
              [] \<Rightarrow> [[c]]
            | w # ws \<Rightarrow> (c # w) # ws))"

text \<open>White space as \<^verbatim>\<open>unicode.IsSpace\<close> sees it, on ASCII.\<close>

definition isSpace :: "char \<Rightarrow> bool" where
  "isSpace c = (c = CHR '' '' \<or> c = CHR 0x09 \<or> c = CHR 0x0A \<or> c = CHR 0x0B
                \<or> c = CHR 0x0C \<or> c = CHR 0x0D)"

definition TrimSpace :: "string \<Rightarrow> string" where
  "TrimSpace s = rev (dropWhile isSpace (rev (dropWhile isSpace s)))"

datatype startup_error = BucketFatal string

text \<open>
  The loop of \<^verbatim>\<open>parseMetricBuckets\<close> over the pieces: \<^verbatim>\<open>log.Fatal\<close> ends the process at
  the first piece that does not parse.
\<close>

fun parseBucketEntries ::
  "(string \<Rightarrow> real option) \<Rightarrow> real list \<Rightarrow> string list \<Rightarrow> startup_error + real list" where
  "parseBucketEntries pf floatBuckets [] = Inr floatBuckets"
| "parseBucketEntries pf floatBuckets (str # rest) =
     (case pf (TrimSpace str) of
        None \<Rightarrow> Inl (BucketFatal (TrimSpace str))
      | Some bucket \<Rightarrow> parseBucketEntries pf (floatBuckets @ [bucket]) rest)"

definition parseMetricBuckets ::
  "(string \<Rightarrow> real option) \<Rightarrow> string \<Rightarrow> startup_error + real list" where
  "parseMetricBuckets pf s = parseBucketEntries pf [] (split_on (CHR '','') s)"

text \<open>
  A reading of unsigned decimal literals (\<^verbatim>\<open>12\<close>, \<^verbatim>\<open>.5\<close>, \<^verbatim>\<open>2.5\<close>), on which
  \<^verbatim>\<open>strconv.ParseFloat\<close> agrees up to rounding. It instantiates \<open>pf\<close> in examples.
\<close>

fun positionIn :: "string \<Rightarrow> nat \<Rightarrow> char \<Rightarrow> nat option" where
  "positionIn [] n c = None"
| "positionIn (d # ds) n c = (if c = d then Some n else positionIn ds (Suc n) c)"

definition digitOf :: "char \<Rightarrow> nat option" where
  "digitOf c = positionIn ''0123456789'' 0 c"

fun digitsVal :: "nat \<Rightarrow> string \<Rightarrow> nat option" where
  "digitsVal acc [] = Some acc"
| "digitsVal acc (c # cs) =
     (case digitOf c of None \<Rightarrow> None | Some d \<Rightarrow> digitsVal (acc * 10 + d) cs)"

definition decimalLit :: "string \<Rightarrow> real option" where
  "decimalLit s =
     (let ip = takeWhile (\<lambda>c. c \<noteq> CHR ''.'') s;
          rest = dropWhile (\<lambda>c. c \<noteq> CHR ''.'') s;
          fp = (if rest = [] then [] else tl rest)
      in if ip = [] \<and> fp = [] then None
         else (case digitsVal 0 ip of
                 None \<Rightarrow> None
               | Some a \<Rightarrow>
                   (case digitsVal 0 fp of
                      None \<Rightarrow> None
                    | Some b \<Rightarrow> Some (real a + real b / 10 ^ length fp))))"

section \<open>Registry and observation\<close>

text \<open>\<^verbatim>\<open>prometheus.BuildFQName(namespace, "", name)\<close>: empty when the name is empty.\<close>

definition namespace :: string where
  "namespace = ''nginx_request''"

definition BuildFQName :: "string \<Rightarrow> string" where
  "BuildFQName name = (if name = [] then [] else namespace @ ''_'' @ name)"

text \<open>\<^verbatim>\<open>prometheus.NewHistogramVec\<close> with the options of the source, and no child yet.\<close>

definition NewHistogramVec :: "string \<Rightarrow> real list \<Rightarrow> string list \<Rightarrow> histogram_vec" where
  "NewHistogramVec name floatBuckets names =
     \<lparr> fqName = BuildFQName name,
       helpText = ''Nginx request log value for '' @ name,
       labelNames = names,
       buckets = floatBuckets,
       children = (\<lambda>vs. None) \<rparr>"

text \<open>
  \<^verbatim>\<open>prometheus.Register\<close>: a descriptor the registry refuses, or one whose name is
  registered with another help string or other label names, is an error; a collector
  equal in name and dimensions to a registered one is \<^verbatim>\<open>AlreadyRegisteredError\<close>,
  carrying the registered collector; otherwise the collector is added.
\<close>

datatype register_error =
    InvalidDesc
  | InconsistentDesc
  | AlreadyRegisteredError histogram_vec

definition Register ::
  "(string \<Rightarrow> string list \<Rightarrow> bool) \<Rightarrow> registry \<Rightarrow> histogram_vec \<Rightarrow> register_error + registry" where
  "Register valid reg c =
     (if \<not> valid (fqName c) (labelNames c) then Inl InvalidDesc
      else (case reg (fqName c) of
              None \<Rightarrow> Inr (reg(fqName c \<mapsto> c))
            | Some e \<Rightarrow>
                if helpText e \<noteq> helpText c \<or> labelNames e \<noteq> labelNames c then Inl InconsistentDesc
                else Inl (AlreadyRegisteredError e)))"

text \<open>
  \<^verbatim>\<open>Observe\<close> on one histogram: the count and the sum grow, and so does the count of the
  first bucket whose upper bound is not below the value (none past the last bound).
\<close>

fun bumpBucket :: "real list \<Rightarrow> real \<Rightarrow> nat list \<Rightarrow> nat list" where
  "bumpBucket [] v cs = cs"
| "bumpBucket (b # bs) v [] = []"
| "bumpBucket (b # bs) v (c # cs) =
     (if v \<le> b then Suc c # cs else c # bumpBucket bs v cs)"

definition newHistogram :: "real list \<Rightarrow> histogram" where
  "newHistogram bs = \<lparr> h_count = 0, h_sum = 0, h_bucket_counts = replicate (length bs) 0 \<rparr>"

definition Observe :: "real list \<Rightarrow> histogram \<Rightarrow> real \<Rightarrow> histogram" where
  "Observe bs h v =
     \<lparr> h_count = Suc (h_count h), h_sum = h_sum h + v,
       h_bucket_counts = bumpBucket bs v (h_bucket_counts h) \<rparr>"

text \<open>
  \<^verbatim>\<open>vec.WithLabelValues(vals...).Observe(v)\<close>: the child for the label values is created
  on first use, then observes.
\<close>

definition observeVec :: "histogram_vec \<Rightarrow> string list \<Rightarrow> real \<Rightarrow> histogram_vec" where
  "observeVec hv vals v =
     (let h = (case children hv vals of None \<Rightarrow> newHistogram (buckets hv) | Some h \<Rightarrow> h)
      in hv\<lparr> children := (children hv)(vals \<mapsto> Observe (buckets hv) h v) \<rparr>)"

text \<open>
  The body of the loop over the metrics of one line (source lines 87 to 104): create a
  vector, register it, adopt the registered one on \<^verbatim>\<open>AlreadyRegisteredError\<close>, skip the
  metric on any other error, and observe on the collector the registry holds.
\<close>

definition observeMetric ::
  "(string \<Rightarrow> string list \<Rightarrow> bool) \<Rightarrow> real list \<Rightarrow> labelset \<Rightarrow> registry \<Rightarrow> metric \<Rightarrow> registry" where
  "observeMetric valid floatBuckets labels reg m =
     (let collector = NewHistogramVec (Name m) floatBuckets (Names labels)
      in case Register valid reg collector of
           Inr reg' \<Rightarrow>
             reg'(fqName collector \<mapsto> observeVec collector (Values labels) (Value m))
         | Inl (AlreadyRegisteredError e) \<Rightarrow>
             reg(fqName e \<mapsto> observeVec e (Values labels) (Value m))
         | Inl InvalidDesc \<Rightarrow> reg
         | Inl InconsistentDesc \<Rightarrow> reg)"

definition observeMetrics ::
  "(string \<Rightarrow> string list \<Rightarrow> bool) \<Rightarrow> real list \<Rightarrow> labelset \<Rightarrow> registry \<Rightarrow> metric list \<Rightarrow> registry" where
  "observeMetrics valid floatBuckets labels reg ms =
     foldl (observeMetric valid floatBuckets labels) reg ms"

section \<open>The observation pipeline\<close>

datatype parse_error =
    InvalidMetricValue string
  | MalformedToken string
  | MissingHostname

type_synonym parser = "string \<Rightarrow> parse_error + (metric list \<times> labelset)"

definition failed :: "state \<Rightarrow> state" where
  "failed st = st\<lparr> syslogParseFailures := syslogParseFailures st + 1 \<rparr>"

text \<open>
  One iteration of the loop over the channel in \<^verbatim>\<open>processMetricsFromSyslog\<close> (source lines
  60 to 104). The parser is the parameter \<open>pm\<close>. The local \<^verbatim>\<open>msgs\<close> is written and never
  read, and is left out.
\<close>

definition processPart ::
  "(string \<Rightarrow> string list \<Rightarrow> bool) \<Rightarrow> parser \<Rightarrow> real list \<Rightarrow> state \<Rightarrow> log_parts \<Rightarrow> state" where
  "processPart valid pm floatBuckets st part =
     (let st1 = st\<lparr> syslogMessages := syslogMessages st + 1 \<rparr>;
          tag = asString (part ''tag'')
      in if tag \<noteq> ''nginx'' then failed st1
         else let server = asString (part ''hostname'')
           in if server = [] then failed st1
              else let content = asString (part ''content'')
                in if content = [] then failed st1
                   else (case pm content of
                           Inl err \<Rightarrow> st1
                         | Inr (metrics, labels) \<Rightarrow>
                             st1\<lparr> collectors :=
                               observeMetrics valid floatBuckets labels (collectors st1) metrics \<rparr>))"

definition processMetricsFromSyslog ::
  "(string \<Rightarrow> string list \<Rightarrow> bool) \<Rightarrow> parser \<Rightarrow> real list \<Rightarrow> state \<Rightarrow> log_parts list \<Rightarrow> state" where
  "processMetricsFromSyslog valid pm floatBuckets st channel =
     foldl (processPart valid pm floatBuckets) st channel"

text \<open>The state after \<^verbatim>\<open>setupSyslogSystemMetrics\<close>: both counters at zero, no histogram.\<close>

definition initial :: state where
  "initial = \<lparr> syslogMessages = 0, syslogParseFailures = 0, collectors = (\<lambda>n. None) \<rparr>"

text \<open>
  \<^verbatim>\<open>main\<close>, up to the consumption of the channel: the bucket list is parsed from the
  parameters first, and a fatal error there ends the process before any message is read.
\<close>

definition main_run ::
  "(string \<Rightarrow> string list \<Rightarrow> bool) \<Rightarrow> (string \<Rightarrow> real option) \<Rightarrow> parser \<Rightarrow>
   (string \<Rightarrow> string option) \<Rightarrow> log_parts list \<Rightarrow> startup_error + state" where
  "main_run valid pf pm env channel =
     (case parseMetricBuckets pf (metricBuckets (readParameters env)) of
        Inl e \<Rightarrow> Inl e
      | Inr floatBuckets \<Rightarrow>
          Inr (processMetricsFromSyslog valid pm floatBuckets initial channel))"

section \<open>The line parser\<close>

text \<open>
  Modelled from the spec: \<^verbatim>\<open>parseMessage\<close>, the Line Parser, is called by the pipeline but its
  source file is not among the sources. The definitions of this section follow the
  spec's grammar (section 4.1): the line is a sequence of tokens separated by white
  space; a token with a colon and no equals sign is a metric token, whose value must
  parse as a finite float (\<open>pf\<close> returns \<open>None\<close> otherwise); a token with an equals sign
  and no colon is a label token, whose value loses one leading and one trailing double
  quote when it has both; a token with neither or both delimiters fails the line. The
  first offending token, in input order, decides the error. After the tokens, the label
  set must hold a label \<^verbatim>\<open>hostname\<close> with a non-empty value.
\<close>

fun splitFields :: "string \<Rightarrow> string list" where
  "splitFields [] = [[]]"
| "splitFields (c # cs) =
     (if isSpace c then [] # splitFields cs
      else (case splitFields cs of
              [] \<Rightarrow> [[c]]
            | w # ws \<Rightarrow> (c # w) # ws))"

definition Fields :: "string \<Rightarrow> string list" where
  "Fields s = filter (\<lambda>w. w \<noteq> []) (splitFields s)"

definition isMetricToken :: "string \<Rightarrow> bool" where
  "isMetricToken tok = (CHR '':'' \<in> set tok \<and> CHR ''='' \<notin> set tok)"

definition isLabelToken :: "string \<Rightarrow> bool" where
  "isLabelToken tok = (CHR ''='' \<in> set tok \<and> CHR '':'' \<notin> set tok)"

definition keyOf :: "char \<Rightarrow> string \<Rightarrow> string" where
  "keyOf d tok = takeWhile (\<lambda>c. c \<noteq> d) tok"

definition valueOf :: "char \<Rightarrow> string \<Rightarrow> string" where
  "valueOf d tok = tl (dropWhile (\<lambda>c. c \<noteq> d) tok)"

definition unquote :: "string \<Rightarrow> string" where
  "unquote v =
     (if 2 \<le> length v \<and> hd v = CHR 0x22 \<and> last v = CHR 0x22 then butlast (tl v) else v)"

fun parseTokens ::
  "(string \<Rightarrow> real option) \<Rightarrow> string list \<Rightarrow> parse_error + (metric list \<times> labelset)" where
  "parseTokens pf [] = Inr ([], [])"
| "parseTokens pf (tok # rest) =
     (if isMetricToken tok then
        (case pf (valueOf (CHR '':'') tok) of
           None \<Rightarrow> Inl (InvalidMetricValue (keyOf (CHR '':'') tok))
         | Some v \<Rightarrow>
             (case parseTokens pf rest of
                Inl e \<Rightarrow> Inl e
              | Inr (ms, ls) \<Rightarrow> Inr (\<lparr>Name = keyOf (CHR '':'') tok, Value = v\<rparr> # ms, ls)))
      else if isLabelToken tok then
        (case parseTokens pf rest of
           Inl e \<Rightarrow> Inl e
         | Inr (ms, ls) \<Rightarrow>
             Inr (ms, (keyOf (CHR ''='') tok, unquote (valueOf (CHR ''='') tok)) # ls))
      else Inl (MalformedToken tok))"

definition hasHostname :: "labelset \<Rightarrow> bool" where
  "hasHostname ls = list_ex (\<lambda>l. fst l = ''hostname'' \<and> snd l \<noteq> []) ls"

definition parseMessage :: "(string \<Rightarrow> real option) \<Rightarrow> parser" where
  "parseMessage pf line =
     (case parseTokens pf (Fields line) of
        Inl e \<Rightarrow> Inl e
      | Inr (ms, ls) \<Rightarrow> if hasHostname ls then Inr (ms, ls) else Inl MissingHostname)"

text \<open>
  Words for statements about the parser: the label a label token stands for, and the
  tokens the grammar accepts (a metric token whose value parses, or a label token).
\<close>

definition labelOf :: "string \<Rightarrow> string \<times> string" where
  "labelOf tok = (keyOf (CHR ''='') tok, unquote (valueOf (CHR ''='') tok))"

definition wellFormed :: "(string \<Rightarrow> real option) \<Rightarrow> string \<Rightarrow> bool" where
  "wellFormed pf tok =
     ((isMetricToken tok \<and> pf (valueOf (CHR '':'') tok) \<noteq> None) \<or> isLabelToken tok)"

definition metricFor :: "(string \<Rightarrow> real option) \<Rightarrow> string \<Rightarrow> metric \<Rightarrow> bool" where
  "metricFor pf tok m =
     (Name m = keyOf (CHR '':'') tok \<and> pf (valueOf (CHR '':'') tok) = Some (Value m))"

section \<open>Reading the registry\<close>








section \<open>Configuration defaults\<close>

lemma GetEnv_cases:
  "GetEnv env key fallback =
     (case env key of None \<Rightarrow> fallback | Some v \<Rightarrow> if v = [] then fallback else v)"
  by (simp add: GetEnv_def os_Getenv_def split: option.split)

lemma GetEnv_nonempty: "fallback \<noteq> [] \<Longrightarrow> GetEnv env key fallback \<noteq> []"
  by (simp add: GetEnv_cases split: option.split)

text \<open>
  Claim C10. For every key, a variable set to the empty string is read exactly like an
  unset one: \<open>GetEnv\<close> returns the fallback whenever the variable's value has length
  zero and the value otherwise, and none of the four parameters of \<open>readParameters\<close> is
  ever empty.
\<close>

theorem GetEnv_empty_as_unset:
  "GetEnv (env(key \<mapsto> [])) key fallback = GetEnv (env(key := None)) key fallback
   \<and> GetEnv (env(key := None)) key fallback = fallback
   \<and> GetEnv env key fallback =
       (if length (os_Getenv env key) = 0 then fallback else os_Getenv env key)
   \<and> listenAddress (readParameters env) \<noteq> []
   \<and> metricsPath (readParameters env) \<noteq> []
   \<and> syslogAddress (readParameters env) \<noteq> []
   \<and> metricBuckets (readParameters env) \<noteq> []"
proof -
  have a: "GetEnv (env(key \<mapsto> [])) key fallback = GetEnv (env(key := None)) key fallback"
    by (simp add: GetEnv_cases)
  have b: "GetEnv (env(key := None)) key fallback = fallback"
    by (simp add: GetEnv_cases)
  have c: "GetEnv env key fallback =
       (if length (os_Getenv env key) = 0 then fallback else os_Getenv env key)"
    by (simp add: GetEnv_def)
  have d: "listenAddress (readParameters env) \<noteq> []"
    "metricsPath (readParameters env) \<noteq> []"
    "syslogAddress (readParameters env) \<noteq> []"
    "metricBuckets (readParameters env) \<noteq> []"
    by (simp_all add: readParameters_def GetEnv_nonempty)
  from a b c d show ?thesis by blast
qed

section \<open>Messages dropped before parsing\<close>

text \<open>
  Claim C6. A message whose tag is not \<^verbatim>\<open>nginx\<close>, or whose transport hostname is empty,
  counts as received and as a parse failure and is dropped: the resulting state does
  not depend on the parser (it is not invoked), and the registry, with every collector
  and observation in it, is unchanged.
\<close>

theorem wrong_tag_or_host_dropped:
  assumes "asString (part ''tag'') \<noteq> ''nginx'' \<or> asString (part ''hostname'') = []"
  shows "processPart valid pm floatBuckets st part =
           st\<lparr> syslogMessages := syslogMessages st + 1,
               syslogParseFailures := syslogParseFailures st + 1 \<rparr>
         \<and> processPart valid pm floatBuckets st part = processPart valid pm' floatBuckets st part
         \<and> collectors (processPart valid pm floatBuckets st part) = collectors st"
  using assms by (auto simp add: processPart_def failed_def Let_def)

theorem wrong_tag_or_host_dropped_witness:
  "processPart (\<lambda>n ls. True) (\<lambda>s. Inr ([\<lparr>Name = ''time'', Value = 1\<rparr>], [(''hostname'', ''a'')]))
     [1] initial ((\<lambda>k. None)(''tag'' \<mapsto> StringV ''cron'', ''hostname'' \<mapsto> StringV ''web'',
                               ''content'' \<mapsto> StringV ''x''))
   = \<lparr> syslogMessages = 1, syslogParseFailures = 1, collectors = (\<lambda>n. None) \<rparr>
   \<and> processPart (\<lambda>n ls. True) (\<lambda>s. Inr ([\<lparr>Name = ''time'', Value = 1\<rparr>], [(''hostname'', ''a'')]))
     [1] initial ((\<lambda>k. None)(''tag'' \<mapsto> StringV ''nginx'', ''hostname'' \<mapsto> IntV 7,
                               ''content'' \<mapsto> StringV ''x''))
   = \<lparr> syslogMessages = 1, syslogParseFailures = 1, collectors = (\<lambda>n. None) \<rparr>"
proof -
  let ?pm = "\<lambda>s::string. Inr ([\<lparr>Name = ''time'', Value = 1\<rparr>], [(''hostname'', ''a'')])
               :: parse_error + (metric list \<times> labelset)"
  let ?p = "(\<lambda>k. None)(''tag'' \<mapsto> StringV ''cron'', ''hostname'' \<mapsto> StringV ''web'',
                         ''content'' \<mapsto> StringV ''x'')"
  let ?q = "(\<lambda>k. None)(''tag'' \<mapsto> StringV ''nginx'', ''hostname'' \<mapsto> IntV 7,
                         ''content'' \<mapsto> StringV ''x'')"
  have hp: "asString (?p ''tag'') \<noteq> ''nginx'' \<or> asString (?p ''hostname'') = []"
    by simp
  have hq: "asString (?q ''tag'') \<noteq> ''nginx'' \<or> asString (?q ''hostname'') = []"
    by simp
  have rp: "processPart (\<lambda>n ls. True) ?pm [1] initial ?p
     = initial\<lparr> syslogMessages := syslogMessages initial + 1,
               syslogParseFailures := syslogParseFailures initial + 1 \<rparr>"
    by (rule conjunct1 [OF wrong_tag_or_host_dropped [OF hp]])
  have rq: "processPart (\<lambda>n ls. True) ?pm [1] initial ?q
     = initial\<lparr> syslogMessages := syslogMessages initial + 1,
               syslogParseFailures := syslogParseFailures initial + 1 \<rparr>"
    by (rule conjunct1 [OF wrong_tag_or_host_dropped [OF hq]])
  show ?thesis unfolding rp rq by (simp add: initial_def)
qed

section \<open>Bucket-boundary parsing\<close>





section \<open>One resolution and observation\<close>

lemma observeMetric_unfold:
  "observeMetric valid fb ls reg m =
     (if \<not> valid (BuildFQName (Name m)) (Names ls) then reg
      else (case reg (BuildFQName (Name m)) of
              None \<Rightarrow> reg(BuildFQName (Name m) \<mapsto>
                         observeVec (NewHistogramVec (Name m) fb (Names ls)) (Values ls) (Value m))
            | Some e \<Rightarrow>
                if helpText e \<noteq> ''Nginx request log value for '' @ Name m \<or> labelNames e \<noteq> Names ls
                then reg
                else reg(fqName e \<mapsto> observeVec e (Values ls) (Value m))))"
  by (simp add: observeMetric_def Register_def NewHistogramVec_def Let_def split: option.split)

lemma observeVec_desc [simp]:
  "fqName (observeVec e vals v) = fqName e"
  "helpText (observeVec e vals v) = helpText e"
  "labelNames (observeVec e vals v) = labelNames e"
  "buckets (observeVec e vals v) = buckets e"
  by (simp_all add: observeVec_def Let_def)








section \<open>Bucket boundaries of registered collectors\<close>

lemma buckets_observeMetric:
  "(\<forall>k e. reg k = Some e \<longrightarrow> buckets e = fb) \<Longrightarrow>
   observeMetric valid fb ls reg m k = Some e \<Longrightarrow> buckets e = fb"
  by (auto simp add: observeMetric_unfold NewHistogramVec_def split: option.splits if_splits)

lemma buckets_observeMetrics:
  "(\<forall>k e. reg k = Some e \<longrightarrow> buckets e = fb) \<Longrightarrow>
   \<forall>k e. observeMetrics valid fb ls reg ms k = Some e \<longrightarrow> buckets e = fb"
  unfolding observeMetrics_def
proof (induction ms arbitrary: reg)
  case Nil
  then show ?case by simp
next
  case (Cons m ms)
  have "\<forall>k e. observeMetric valid fb ls reg m k = Some e \<longrightarrow> buckets e = fb"
    using Cons.prems buckets_observeMetric by blast
  from Cons.IH [OF this] show ?case by simp
qed

lemma buckets_processPart:
  "(\<forall>k e. collectors st k = Some e \<longrightarrow> buckets e = fb) \<Longrightarrow>
   \<forall>k e. collectors (processPart valid pm fb st part) k = Some e \<longrightarrow> buckets e = fb"
  using buckets_observeMetrics [of "collectors st" fb valid]
  by (auto simp add: processPart_def failed_def Let_def split: sum.splits prod.splits)

lemma buckets_process:
  "(\<forall>k e. collectors st k = Some e \<longrightarrow> buckets e = fb) \<Longrightarrow>
   \<forall>k e. collectors (processMetricsFromSyslog valid pm fb st channel) k = Some e \<longrightarrow> buckets e = fb"
  unfolding processMetricsFromSyslog_def
proof (induction channel arbitrary: st)
  case Nil
  then show ?case by simp
next
  case (Cons p ps)
  from Cons.IH [OF buckets_processPart [OF Cons.prems]] show ?case by simp
qed

text \<open>
  Claim C8. In every run of the process, for every channel contents, every collector in
  the registry carries the bucket list that was parsed at startup from the configured
  string: no collector has other boundaries.
\<close>

theorem collectors_share_startup_buckets:
  assumes "main_run valid pf pm env channel = Inr st"
    and "collectors st k = Some e"
  shows "parseMetricBuckets pf (metricBuckets (readParameters env)) = Inr (buckets e)"
proof (cases "parseMetricBuckets pf (metricBuckets (readParameters env))")
  case (Inl err)
  with assms(1) show ?thesis by (simp add: main_run_def)
next
  case (Inr fb)
  with assms(1) have st: "st = processMetricsFromSyslog valid pm fb initial channel"
    by (simp add: main_run_def)
  have "\<forall>k e. collectors initial k = Some e \<longrightarrow> buckets e = fb"
    by (simp add: initial_def)
  from buckets_process [OF this] assms(2) st have "buckets e = fb" by blast
  with Inr show ?thesis by simp
qed

theorem collectors_share_startup_buckets_witness:
  "\<exists>st e. main_run (\<lambda>n ls. True) decimalLit
       (\<lambda>s. Inr ([\<lparr>Name = ''time'', Value = 1\<rparr>], [(''hostname'', ''a'')]))
       ((\<lambda>k. None)(''NRE_HISTOGRAM_BUCKETS'' \<mapsto> ''1,2''))
       [(\<lambda>k. None)(''tag'' \<mapsto> StringV ''nginx'', ''hostname'' \<mapsto> StringV ''web'',
                     ''content'' \<mapsto> StringV ''x'')] = Inr st
     \<and> collectors st ''nginx_request_time'' = Some e
     \<and> parseMetricBuckets decimalLit ''1,2'' = Inr (buckets e)"
proof -
  let ?env = "(\<lambda>k. None)(''NRE_HISTOGRAM_BUCKETS'' \<mapsto> ''1,2'')"
  let ?pm = "\<lambda>s. Inr ([\<lparr>Name = ''time'', Value = 1\<rparr>], [(''hostname'', ''a'')])"
  let ?ch = "[(\<lambda>k. None)(''tag'' \<mapsto> StringV ''nginx'', ''hostname'' \<mapsto> StringV ''web'',
                     ''content'' \<mapsto> StringV ''x'')]"
  have b: "metricBuckets (readParameters ?env) = ''1,2''"
    by (simp add: readParameters_def GetEnv_def os_Getenv_def)
  have p: "parseMetricBuckets decimalLit ''1,2'' = Inr [1, 2]"
    by (simp add: parseMetricBuckets_def TrimSpace_def isSpace_def decimalLit_def digitOf_def)
  define st where "st = processMetricsFromSyslog (\<lambda>n ls. True) ?pm [1, 2] initial ?ch"
  have r: "main_run (\<lambda>n ls. True) decimalLit ?pm ?env ?ch = Inr st"
    by (simp add: main_run_def b p st_def)
  have c: "collectors st ''nginx_request_time'' \<noteq> None"
    by (simp add: st_def processMetricsFromSyslog_def processPart_def Let_def initial_def
        observeMetrics_def observeMetric_unfold BuildFQName_def namespace_def)
  then obtain e where e: "collectors st ''nginx_request_time'' = Some e" by blast
  from collectors_share_startup_buckets [OF r e] b
  have "parseMetricBuckets decimalLit ''1,2'' = Inr (buckets e)" by simp
  with r e show ?thesis by blast
qed

text \<open>
  The parsed list is whatever the entries say: \<^verbatim>\<open>2,1\<close> parses to a list that is not
  increasing, and a collector is created with it.
\<close>

theorem parsed_buckets_not_increasing:
  "parseMetricBuckets decimalLit ''2,1'' = Inr [2, 1]
   \<and> buckets (NewHistogramVec ''time'' [2, 1] [''hostname'']) = [2, 1]
   \<and> \<not> sorted_wrt (<) [2, 1 :: real]"
  by (simp add: parseMetricBuckets_def TrimSpace_def isSpace_def decimalLit_def digitOf_def
      NewHistogramVec_def)

section \<open>Resolving one identity repeatedly\<close>

lemma Observe_count_sum [simp]:
  "h_count (Observe bs h v) = Suc (h_count h)"
  "h_sum (Observe bs h v) = h_sum h + v"
  by (simp_all add: Observe_def)

lemma newHistogram_zero [simp]:
  "h_count (newHistogram bs) = 0" "h_sum (newHistogram bs) = 0"
  by (simp_all add: newHistogram_def)









section \<open>Label-set conflicts\<close>






section \<open>Messages without metrics, and parser failures\<close>




text \<open>
  Claim C1, at a message whose line the parser rejects: the message is counted as
  received, and the parse-failure counter stays at zero.
\<close>

theorem parser_failure_not_counted:
  "parseMessage decimalLit ''time:abc hostname=srv1'' = Inl (InvalidMetricValue ''time'')
   \<and> syslogMessages (processMetricsFromSyslog (\<lambda>n ns. True) (parseMessage decimalLit) [1, 2] initial
        [(\<lambda>k. None)(''tag'' \<mapsto> StringV ''nginx'', ''hostname'' \<mapsto> StringV ''web'',
                      ''content'' \<mapsto> StringV ''time:abc hostname=srv1'')]) = 1
   \<and> syslogParseFailures (processMetricsFromSyslog (\<lambda>n ns. True) (parseMessage decimalLit) [1, 2] initial
        [(\<lambda>k. None)(''tag'' \<mapsto> StringV ''nginx'', ''hostname'' \<mapsto> StringV ''web'',
                      ''content'' \<mapsto> StringV ''time:abc hostname=srv1'')]) = 0"
proof -
  have p: "parseMessage decimalLit ''time:abc hostname=srv1'' = Inl (InvalidMetricValue ''time'')"
    by (simp add: parseMessage_def Fields_def isSpace_def isMetricToken_def isLabelToken_def
        keyOf_def valueOf_def decimalLit_def digitOf_def)
  show ?thesis
    by (simp add: p processMetricsFromSyslog_def processPart_def Let_def initial_def)
qed

section \<open>The line parser on well-formed lines\<close>

lemma token_kinds_exclusive: "isMetricToken tok \<Longrightarrow> \<not> isLabelToken tok"
  by (simp add: isMetricToken_def isLabelToken_def)

lemma parseTokens_wellFormed:
  "\<forall>tok\<in>set toks. wellFormed pf tok \<Longrightarrow>
   \<exists>ms. parseTokens pf toks = Inr (ms, map labelOf (filter isLabelToken toks))
        \<and> list_all2 (metricFor pf) (filter isMetricToken toks) ms"
proof (induction toks)
  case Nil
  then show ?case by simp
next
  case (Cons tok toks)
  then obtain ms where ms: "parseTokens pf toks = Inr (ms, map labelOf (filter isLabelToken toks))"
    "list_all2 (metricFor pf) (filter isMetricToken toks) ms"
    by auto
  have wf: "wellFormed pf tok" using Cons.prems by simp
  show ?case
  proof (cases "isMetricToken tok")
    case True
    then obtain v where v: "pf (valueOf (CHR '':'') tok) = Some v"
      using wf token_kinds_exclusive by (auto simp add: wellFormed_def)
    have "parseTokens pf (tok # toks) =
        Inr (\<lparr>Name = keyOf (CHR '':'') tok, Value = v\<rparr> # ms, map labelOf (filter isLabelToken (tok # toks)))"
      using True v ms(1) token_kinds_exclusive by simp
    moreover have "list_all2 (metricFor pf) (filter isMetricToken (tok # toks))
        (\<lparr>Name = keyOf (CHR '':'') tok, Value = v\<rparr> # ms)"
      using True v ms(2) by (simp add: metricFor_def)
    ultimately show ?thesis by blast
  next
    case False
    then have l: "isLabelToken tok" using wf by (simp add: wellFormed_def)
    have "parseTokens pf (tok # toks) = Inr (ms, map labelOf (filter isLabelToken (tok # toks)))"
      using False l ms(1) by (simp add: labelOf_def)
    moreover have "list_all2 (metricFor pf) (filter isMetricToken (tok # toks)) ms"
      using False ms(2) by simp
    ultimately show ?thesis by blast
  qed
qed

lemma unquote_quoted: "unquote (CHR 0x22 # v @ [CHR 0x22]) = v"
  by (simp add: unquote_def butlast_append)

lemma example_line:
  "pf ''0.123'' = Some v \<Longrightarrow>
   parseMessage pf (''time:0.123 status=200 host='' @ CHR 0x22 # ''example.com'' @ CHR 0x22 # '' hostname=srv1'')
     = Inr ([\<lparr>Name = ''time'', Value = v\<rparr>],
            [(''status'', ''200''), (''host'', ''example.com''), (''hostname'', ''srv1'')])"
  by (simp add: parseMessage_def Fields_def isSpace_def isMetricToken_def isLabelToken_def
      keyOf_def valueOf_def unquote_def hasHostname_def)

text \<open>
  Claim C3. On a line whose tokens are all metric tokens with a value that parses or
  label tokens, and whose labels include a non-empty \<^verbatim>\<open>hostname\<close>, the parser returns
  one metric per metric token (its key and its parsed value) and one label per label
  token, each in the order of the tokens. In the example line the metric is \<^verbatim>\<open>time\<close>
  and the labels are \<^verbatim>\<open>status\<close>, \<^verbatim>\<open>host\<close>, \<^verbatim>\<open>hostname\<close> with values \<^verbatim>\<open>200\<close>,
  \<^verbatim>\<open>example.com\<close>, \<^verbatim>\<open>srv1\<close>; a quoted label value loses exactly its first and its last
  double quote.
\<close>

theorem parse_well_formed_in_order:
  "((\<forall>tok\<in>set (Fields line). wellFormed pf tok)
      \<and> hasHostname (map labelOf (filter isLabelToken (Fields line))) \<longrightarrow>
      (\<exists>ms. parseMessage pf line = Inr (ms, map labelOf (filter isLabelToken (Fields line)))
          \<and> list_all2 (metricFor pf) (filter isMetricToken (Fields line)) ms))
   \<and> (pf ''0.123'' = Some v \<longrightarrow>
        parseMessage pf (''time:0.123 status=200 host='' @ CHR 0x22 # ''example.com''
                           @ CHR 0x22 # '' hostname=srv1'')
          = Inr ([\<lparr>Name = ''time'', Value = v\<rparr>],
                 [(''status'', ''200''), (''host'', ''example.com''), (''hostname'', ''srv1'')]))
   \<and> Names [(''status'', ''200''), (''host'', ''example.com''), (''hostname'', ''srv1'')]
        = [''status'', ''host'', ''hostname'']
   \<and> Values [(''status'', ''200''), (''host'', ''example.com''), (''hostname'', ''srv1'')]
        = [''200'', ''example.com'', ''srv1'']
   \<and> unquote (CHR 0x22 # w @ [CHR 0x22]) = w"
proof -
  have g: "(\<forall>tok\<in>set (Fields line). wellFormed pf tok)
      \<and> hasHostname (map labelOf (filter isLabelToken (Fields line))) \<longrightarrow>
      (\<exists>ms. parseMessage pf line = Inr (ms, map labelOf (filter isLabelToken (Fields line)))
          \<and> list_all2 (metricFor pf) (filter isMetricToken (Fields line)) ms)"
  proof
    assume a: "(\<forall>tok\<in>set (Fields line). wellFormed pf tok)
      \<and> hasHostname (map labelOf (filter isLabelToken (Fields line)))"
    then obtain ms where ms:
      "parseTokens pf (Fields line) = Inr (ms, map labelOf (filter isLabelToken (Fields line)))"
      "list_all2 (metricFor pf) (filter isMetricToken (Fields line)) ms"
      using parseTokens_wellFormed [of "Fields line" pf] by blast
    have "parseMessage pf line = Inr (ms, map labelOf (filter isLabelToken (Fields line)))"
      using a ms(1) by (simp add: parseMessage_def)
    with ms(2) show "\<exists>ms. parseMessage pf line = Inr (ms, map labelOf (filter isLabelToken (Fields line)))
          \<and> list_all2 (metricFor pf) (filter isMetricToken (Fields line)) ms"
      by blast
  qed
  have n: "Names [(''status'', ''200''), (''host'', ''example.com''), (''hostname'', ''srv1'')]
        = [''status'', ''host'', ''hostname'']"
    "Values [(''status'', ''200''), (''host'', ''example.com''), (''hostname'', ''srv1'')]
        = [''200'', ''example.com'', ''srv1'']"
    by (simp_all add: Names_def Values_def)
  from g example_line [of pf v] n unquote_quoted [of w] show ?thesis by blast
qed

theorem parse_well_formed_in_order_witness:
  "parseMessage decimalLit (''time:0.123 status=200 host='' @ CHR 0x22 # ''example.com''
                           @ CHR 0x22 # '' hostname=srv1'')
     = Inr ([\<lparr>Name = ''time'', Value = 123 / 1000\<rparr>],
            [(''status'', ''200''), (''host'', ''example.com''), (''hostname'', ''srv1'')])
   \<and> (\<exists>ms. parseMessage decimalLit ''a:1 hostname=h b:2'' = Inr (ms, [(''hostname'', ''h'')])
          \<and> list_all2 (metricFor decimalLit) [''a:1'', ''b:2''] ms)"
proof -
  note t = parse_well_formed_in_order [of "''a:1 hostname=h b:2''" decimalLit "123 / 1000"]
  have d: "decimalLit ''0.123'' = Some (123 / 1000)"
    by (simp add: decimalLit_def digitOf_def)
  have f: "Fields ''a:1 hostname=h b:2'' = [''a:1'', ''hostname=h'', ''b:2'']"
    by (simp add: Fields_def isSpace_def)
  have k: "filter isLabelToken [''a:1'', ''hostname=h'', ''b:2''] = [''hostname=h'']"
    "filter isMetricToken [''a:1'', ''hostname=h'', ''b:2''] = [''a:1'', ''b:2'']"
    by (simp_all add: isMetricToken_def isLabelToken_def)
  have l: "map labelOf [''hostname=h''] = [(''hostname'', ''h'')]"
    by (simp add: labelOf_def keyOf_def valueOf_def unquote_def)
  have w: "\<forall>tok\<in>set [''a:1'', ''hostname=h'', ''b:2'']. wellFormed decimalLit tok"
    by (simp add: wellFormed_def isMetricToken_def isLabelToken_def valueOf_def decimalLit_def
        digitOf_def)
  have h: "hasHostname [(''hostname'', ''h'')]" by (simp add: hasHostname_def)
  from t d w h show ?thesis unfolding f k l by blast
qed

section \<open>Parser errors\<close>

lemma parseTokens_success:
  "parseTokens pf toks = Inr (ms, ls) \<Longrightarrow>
   (\<forall>tok\<in>set toks. wellFormed pf tok) \<and> ls = map labelOf (filter isLabelToken toks)"
proof (induction toks arbitrary: ms ls)
  case Nil
  then show ?case by simp
next
  case (Cons tok toks)
  show ?case
  proof (cases "isMetricToken tok")
    case True
    with Cons.prems obtain v ms' where
      "pf (valueOf (CHR '':'') tok) = Some v" "parseTokens pf toks = Inr (ms', ls)"
      by (auto split: option.splits sum.splits)
    with Cons.IH [of ms' ls] True token_kinds_exclusive show ?thesis
      by (auto simp add: wellFormed_def)
  next
    case False
    with Cons.prems obtain ls' where
      l: "isLabelToken tok" "parseTokens pf toks = Inr (ms, ls')" "ls = labelOf tok # ls'"
      by (auto simp add: labelOf_def split: if_splits sum.splits)
    with Cons.IH [of ms ls'] show ?thesis
      by (auto simp add: wellFormed_def)
  qed
qed

lemma parseTokens_first_bad_metric:
  assumes "\<forall>t\<in>set pre. wellFormed pf t"
    and "isMetricToken tok" and "pf (valueOf (CHR '':'') tok) = None"
  shows "parseTokens pf (pre @ tok # post) = Inl (InvalidMetricValue (keyOf (CHR '':'') tok))"
  using assms(1)
proof (induction pre)
  case Nil
  then show ?case using assms(2,3) by simp
next
  case (Cons t pre)
  then have ih: "parseTokens pf (pre @ tok # post) = Inl (InvalidMetricValue (keyOf (CHR '':'') tok))"
    by simp
  have "wellFormed pf t" using Cons.prems by simp
  then show ?case using ih token_kinds_exclusive [of t] by (auto simp add: wellFormed_def)
qed

lemma parseTokens_bad_metric_fails:
  "\<exists>tok\<in>set toks. isMetricToken tok \<and> pf (valueOf (CHR '':'') tok) = None \<Longrightarrow>
   \<exists>e. parseTokens pf toks = Inl e"
proof -
  assume "\<exists>tok\<in>set toks. isMetricToken tok \<and> pf (valueOf (CHR '':'') tok) = None"
  then obtain tok where t: "tok \<in> set toks" "isMetricToken tok" "pf (valueOf (CHR '':'') tok) = None"
    by blast
  show ?thesis
  proof (cases "parseTokens pf toks")
    case (Inl e)
    then show ?thesis by blast
  next
    case (Inr r)
    then obtain ms ls where "parseTokens pf toks = Inr (ms, ls)" by (cases r) simp
    from parseTokens_success [OF this] t(1) have "wellFormed pf tok" by blast
    with t(2,3) token_kinds_exclusive show ?thesis by (auto simp add: wellFormed_def)
  qed
qed

lemma parseMessage_no_hostname_fails:
  assumes "\<not> hasHostname (map labelOf (filter isLabelToken (Fields line)))"
  shows "\<exists>e. parseMessage pf line = Inl e"
proof (cases "parseTokens pf (Fields line)")
  case (Inl e)
  then show ?thesis by (simp add: parseMessage_def)
next
  case (Inr r)
  then obtain ms ls where r: "parseTokens pf (Fields line) = Inr (ms, ls)" by (cases r) simp
  from parseTokens_success [OF r] assms have "\<not> hasHostname ls" by simp
  with r show ?thesis by (simp add: parseMessage_def)
qed

text \<open>
  Claim C9, with the order of the checks made explicit. A line without a non-empty
  \<^verbatim>\<open>hostname\<close> label always fails, and with the missing-hostname error when all its
  tokens are well-formed (as in \<^verbatim>\<open>status=200\<close>). A line with a metric token whose value
  does not parse always fails, and with the invalid-metric-value error for that token's
  key when every token before it is well-formed (as in \<^verbatim>\<open>time:abc hostname=srv1\<close>).
\<close>

theorem parse_errors:
  "((\<forall>tok\<in>set (Fields line). wellFormed pf tok)
      \<and> \<not> hasHostname (map labelOf (filter isLabelToken (Fields line))) \<longrightarrow>
      parseMessage pf line = Inl MissingHostname)
   \<and> (\<not> hasHostname (map labelOf (filter isLabelToken (Fields line))) \<longrightarrow>
      (\<exists>e. parseMessage pf line = Inl e))
   \<and> (Fields line = pre @ tok # post \<and> (\<forall>t\<in>set pre. wellFormed pf t)
      \<and> isMetricToken tok \<and> pf (valueOf (CHR '':'') tok) = None \<longrightarrow>
      parseMessage pf line = Inl (InvalidMetricValue (keyOf (CHR '':'') tok)))
   \<and> ((\<exists>tok\<in>set (Fields line). isMetricToken tok \<and> pf (valueOf (CHR '':'') tok) = None) \<longrightarrow>
      (\<exists>e. parseMessage pf line = Inl e))
   \<and> parseMessage pf ''status=200'' = Inl MissingHostname
   \<and> (pf ''abc'' = None \<longrightarrow>
      parseMessage pf ''time:abc hostname=srv1'' = Inl (InvalidMetricValue ''time''))"
proof -
  have a: "(\<forall>tok\<in>set (Fields line). wellFormed pf tok)
      \<and> \<not> hasHostname (map labelOf (filter isLabelToken (Fields line))) \<longrightarrow>
      parseMessage pf line = Inl MissingHostname"
  proof
    assume h: "(\<forall>tok\<in>set (Fields line). wellFormed pf tok)
      \<and> \<not> hasHostname (map labelOf (filter isLabelToken (Fields line)))"
    then obtain ms where "parseTokens pf (Fields line)
        = Inr (ms, map labelOf (filter isLabelToken (Fields line)))"
      using parseTokens_wellFormed [of "Fields line" pf] by blast
    with h show "parseMessage pf line = Inl MissingHostname"
      by (simp add: parseMessage_def)
  qed
  have b: "\<not> hasHostname (map labelOf (filter isLabelToken (Fields line))) \<longrightarrow>
      (\<exists>e. parseMessage pf line = Inl e)"
    using parseMessage_no_hostname_fails by blast
  have c: "Fields line = pre @ tok # post \<and> (\<forall>t\<in>set pre. wellFormed pf t)
      \<and> isMetricToken tok \<and> pf (valueOf (CHR '':'') tok) = None \<longrightarrow>
      parseMessage pf line = Inl (InvalidMetricValue (keyOf (CHR '':'') tok))"
    using parseTokens_first_bad_metric [of pre pf tok post] by (simp add: parseMessage_def)
  have d: "(\<exists>tok\<in>set (Fields line). isMetricToken tok \<and> pf (valueOf (CHR '':'') tok) = None) \<longrightarrow>
      (\<exists>e. parseMessage pf line = Inl e)"
  proof
    assume "\<exists>tok\<in>set (Fields line). isMetricToken tok \<and> pf (valueOf (CHR '':'') tok) = None"
    from parseTokens_bad_metric_fails [OF this] obtain e where "parseTokens pf (Fields line) = Inl e"
      by blast
    then show "\<exists>e. parseMessage pf line = Inl e" by (simp add: parseMessage_def)
  qed
  have e: "parseMessage pf ''status=200'' = Inl MissingHostname"
    by (simp add: parseMessage_def Fields_def isSpace_def isMetricToken_def isLabelToken_def
        keyOf_def valueOf_def unquote_def hasHostname_def)
  have f: "pf ''abc'' = None \<longrightarrow>
      parseMessage pf ''time:abc hostname=srv1'' = Inl (InvalidMetricValue ''time'')"
    by (simp add: parseMessage_def Fields_def isSpace_def isMetricToken_def isLabelToken_def
        keyOf_def valueOf_def)
  from a b c d e f show ?thesis by blast
qed

theorem parse_errors_witness:
  "parseMessage decimalLit ''status=200 time:1'' = Inl MissingHostname
   \<and> parseMessage decimalLit ''hostname=h a:1 b:x c:y'' = Inl (InvalidMetricValue ''b'')
   \<and> parseMessage decimalLit ''time:abc hostname=srv1'' = Inl (InvalidMetricValue ''time'')"
proof -
  have f1: "Fields ''status=200 time:1'' = [''status=200'', ''time:1'']"
    by (simp add: Fields_def isSpace_def)
  have w1: "\<forall>tok\<in>set [''status=200'', ''time:1'']. wellFormed decimalLit tok"
    by (simp add: wellFormed_def isMetricToken_def isLabelToken_def valueOf_def decimalLit_def
        digitOf_def)
  have h1: "\<not> hasHostname (map labelOf (filter isLabelToken [''status=200'', ''time:1'']))"
    by (simp add: hasHostname_def labelOf_def isLabelToken_def keyOf_def)
  have a: "parseMessage decimalLit ''status=200 time:1'' = Inl MissingHostname"
    using parse_errors [of "''status=200 time:1''" decimalLit "[]" "[]" "[]"] w1 h1
    unfolding f1 by blast
  have f2: "Fields ''hostname=h a:1 b:x c:y'' = [''hostname=h'', ''a:1''] @ ''b:x'' # [''c:y'']"
    by (simp add: Fields_def isSpace_def)
  have w2: "\<forall>t\<in>set [''hostname=h'', ''a:1'']. wellFormed decimalLit t"
    by (simp add: wellFormed_def isMetricToken_def isLabelToken_def valueOf_def decimalLit_def
        digitOf_def)
  have m2: "isMetricToken ''b:x'' \<and> decimalLit (valueOf (CHR '':'') ''b:x'') = None"
    by (simp add: isMetricToken_def valueOf_def decimalLit_def digitOf_def)
  have k2: "keyOf (CHR '':'') ''b:x'' = ''b''" by (simp add: keyOf_def)
  have b: "parseMessage decimalLit ''hostname=h a:1 b:x c:y'' = Inl (InvalidMetricValue ''b'')"
    using parse_errors [of "''hostname=h a:1 b:x c:y''" decimalLit "[''hostname=h'', ''a:1'']"
        "''b:x''" "[''c:y'']"] f2 w2 m2 unfolding k2 by blast
  have n: "decimalLit ''abc'' = None" by (simp add: decimalLit_def digitOf_def)
  have c: "parseMessage decimalLit ''time:abc hostname=srv1'' = Inl (InvalidMetricValue ''time'')"
    using parse_errors [of "''x''" decimalLit "[]" "[]" "[]"] n by blast
  from a b c show ?thesis by blast
qed

text \<open>
  The two error rules of the claim meet on \<^verbatim>\<open>time:abc\<close>: the line has no \<^verbatim>\<open>hostname\<close>
  label and fails on the metric value, not with the missing-hostname error; and a line
  with a non-numeric metric value after a malformed token fails on that token.
\<close>

theorem parse_error_kinds_overlap:
  "\<not> hasHostname (map labelOf (filter isLabelToken (Fields ''time:abc'')))
   \<and> parseMessage decimalLit ''time:abc'' = Inl (InvalidMetricValue ''time'')
   \<and> parseMessage decimalLit ''foo time:abc hostname=h'' = Inl (MalformedToken ''foo'')"
  by (simp add: parseMessage_def Fields_def isSpace_def isMetricToken_def isLabelToken_def
      keyOf_def valueOf_def decimalLit_def digitOf_def hasHostname_def)

end
